theory Spec2Isabelle
  imports Main "HOL-Library.Sublist"
begin

section \<open>Python values: strings, exceptions, results\<close>

text \<open>
  The search-adapter layer of \<^verbatim>\<open>src/tools.py\<close>: the domain normalizer
  \<^verbatim>\<open>extract_domain\<close> and the three adapters \<^verbatim>\<open>search_tavily\<close>,
  \<^verbatim>\<open>search_exa\<close> and \<^verbatim>\<open>search_with_urls\<close>.

  A Python \<^verbatim>\<open>str\<close> is a \<open>string\<close>; one \<open>char\<close> stands for one code point
  (so the model covers the code points below 256). A call that may raise returns
  \<open>exn + 'a\<close>, with \<open>Inl\<close> for the exception raised. \<open>exn\<close> models the instances
  of Python's \<^verbatim>\<open>Exception\<close>: the ones the interpreter and the standard library raise
  in this program, and \<open>Raised\<close> for whatever a backend library raises, carrying the
  text of \<^verbatim>\<open>str(e)\<close>.
\<close>

datatype exn = ValueError string | KeyError string | Raised string

text \<open>\<^verbatim>\<open>str(e)\<close>. The keys that raise \<^verbatim>\<open>KeyError\<close> in this program are the literals
  \<^verbatim>\<open>'title'\<close>, \<^verbatim>\<open>'url'\<close> and \<^verbatim>\<open>'content'\<close>, whose \<^verbatim>\<open>repr\<close> is the key
  between single quotes.\<close>

fun str_exn :: "exn \<Rightarrow> string" where
  "str_exn (ValueError m) = m"
| "str_exn (KeyError k) = [CHR 0x27] @ k @ [CHR 0x27]"
| "str_exn (Raised m) = m"

definition bind :: "exn + 'a \<Rightarrow> ('a \<Rightarrow> exn + 'b) \<Rightarrow> exn + 'b" where
  "bind m f = (case m of Inl e \<Rightarrow> Inl e | Inr x \<Rightarrow> f x)"

text \<open>\<^verbatim>\<open>sub in s\<close> on strings.\<close>

fun str_contains :: "string \<Rightarrow> string \<Rightarrow> bool" where
  "str_contains sub [] = (sub = [])"
| "str_contains sub (c # cs) = (prefix sub (c # cs) \<or> str_contains sub cs)"

text \<open>\<^verbatim>\<open>s.find(c, start)\<close> for a one-character \<^verbatim>\<open>c\<close>: the first index at or after
  \<^verbatim>\<open>start\<close>, or \<open>-1\<close>.\<close>

fun str_index :: "char \<Rightarrow> string \<Rightarrow> nat option" where
  "str_index c [] = None"
| "str_index c (x # xs) = (if x = c then Some 0 else map_option Suc (str_index c xs))"

definition str_find :: "string \<Rightarrow> char \<Rightarrow> nat \<Rightarrow> int" where
  "str_find s c start =
     (case str_index c (drop start s) of None \<Rightarrow> - 1 | Some k \<Rightarrow> int (start + k))"

definition isascii :: "char \<Rightarrow> bool" where
  "isascii c = (\<not> digit7 c)"

text \<open>\<^verbatim>\<open>c.isalpha()\<close> on an ASCII character.\<close>

definition ascii_isalpha :: "char \<Rightarrow> bool" where
  "ascii_isalpha c =
     (c \<in> set ''abcdefghijklmnopqrstuvwxyzABCDEFGHIJKLMNOPQRSTUVWXYZ'')"

text \<open>\<^verbatim>\<open>str(i)\<close> for the counter of \<^verbatim>\<open>enumerate\<close>.\<close>

fun str_nat :: "nat \<Rightarrow> string" where
  "str_nat n =
     (if n < 10 then [''0123456789'' ! n]
      else str_nat (n div 10) @ [''0123456789'' ! (n mod 10)])"

declare str_nat.simps [simp del]


section \<open>The environment of a call\<close>

text \<open>
  What the program takes from outside the repository is a parameter of the model:
  \<^item> \<open>check_bracketed_netloc\<close>: the check \<^verbatim>\<open>urlsplit\<close> makes on a netloc that has
    both \<^verbatim>\<open>[\<close> and \<^verbatim>\<open>]\<close>, which returns nothing or raises. It differs between
    releases of CPython: none, \<^verbatim>\<open>_check_bracketed_host\<close> on the text between the
    brackets, or \<^verbatim>\<open>_check_bracketed_netloc\<close> on the whole netloc;
  \<^item> \<open>nfkc_netloc_ok\<close>: whether the Unicode normalisation check of
    \<^verbatim>\<open>urllib.parse._checknetloc\<close> passes on a non-ASCII netloc;
  \<^item> \<open>py_repr\<close>: \<^verbatim>\<open>repr\<close> of a \<^verbatim>\<open>str\<close>;
  \<^item> \<open>getenv\<close>: \<^verbatim>\<open>os.getenv\<close>;
  \<^item> \<open>TavilyClient\<close>, \<open>Exa\<close>: the client constructors of the two backend libraries; a
    client is its search method, from the keyword arguments to the response or the
    exception raised.
\<close>

text \<open>The keyword arguments of \<^verbatim>\<open>TavilyClient.search\<close>; \<open>None\<close> is a keyword the caller
  leaves out.\<close>

record tavily_request =
  req_query :: string
  req_search_depth :: "string option"
  req_include_domains :: "string list option"
  req_max_results :: int
  req_include_answer :: "bool option"

text \<open>A result of Tavily is a dict from field names to strings.\<close>

type_synonym tavily_result = "(string \<times> string) list"

text \<open>The response of Tavily, a dict read only through \<^verbatim>\<open>.get('results')\<close> and
  \<^verbatim>\<open>.get('answer')\<close>: \<open>None\<close> is a key that is absent or \<^verbatim>\<open>None\<close>.\<close>

record tavily_response =
  answer :: "string option"
  results :: "tavily_result list option"

type_synonym tavily_client = "tavily_request \<Rightarrow> exn + tavily_response"

text \<open>The keyword arguments of \<^verbatim>\<open>Exa.search_and_contents\<close>.\<close>

record exa_request =
  exa_query :: string
  exa_num_results :: int
  exa_use_autoprompt :: bool
  exa_text :: "(string \<times> int) list"

record exa_result =
  res_title :: string
  res_url :: string
  res_text :: string

record exa_response =
  exa_results :: "exa_result list"

type_synonym exa_client = "exa_request \<Rightarrow> exn + exa_response"

record world =
  check_bracketed_netloc :: "string \<Rightarrow> exn + unit"
  nfkc_netloc_ok :: "string \<Rightarrow> bool"
  py_repr :: "string \<Rightarrow> string"
  getenv :: "string \<Rightarrow> string option"
  TavilyClient :: "string option \<Rightarrow> exn + tavily_client"
  Exa :: "string option \<Rightarrow> exn + exa_client"

text \<open>The calls a run makes on the backend libraries, in order.\<close>

datatype call =
    NewTavilyClient "string option"
  | TavilySearch tavily_request
  | NewExa "string option"
  | ExaSearchAndContents exa_request


section \<open>\<^verbatim>\<open>urllib.parse.urlparse(url).netloc\<close>\<close>

text \<open>
  \<^verbatim>\<open>urlparse\<close> calls \<^verbatim>\<open>urlsplit\<close> and takes the netloc from it unchanged. The
  steps of \<^verbatim>\<open>urlsplit\<close> that decide the netloc or raise are modelled from CPython 3.11
  (from 3.11.4 on): stripping of leading control characters and spaces, removal of tab
  and line breaks, the scheme, the netloc up to the first of \<^verbatim>\<open>/ ? #\<close>, the test for
  an unmatched bracket, the check of a bracketed netloc (a parameter), and
  \<^verbatim>\<open>_checknetloc\<close>. The splitting of the rest into path, query and fragment neither
  raises nor changes the netloc.
\<close>

definition WHATWG_C0_CONTROL_OR_SPACE :: string where
  "WHATWG_C0_CONTROL_OR_SPACE =
     [CHR 0x00, CHR 0x01, CHR 0x02, CHR 0x03, CHR 0x04, CHR 0x05, CHR 0x06, CHR 0x07,
      CHR 0x08, CHR 0x09, CHR 0x0A, CHR 0x0B, CHR 0x0C, CHR 0x0D, CHR 0x0E, CHR 0x0F,
      CHR 0x10, CHR 0x11, CHR 0x12, CHR 0x13, CHR 0x14, CHR 0x15, CHR 0x16, CHR 0x17,
      CHR 0x18, CHR 0x19, CHR 0x1A, CHR 0x1B, CHR 0x1C, CHR 0x1D, CHR 0x1E, CHR 0x1F,
      CHR 0x20]"

definition UNSAFE_URL_BYTES_TO_REMOVE :: string where
  "UNSAFE_URL_BYTES_TO_REMOVE = [CHR 0x09, CHR 0x0D, CHR 0x0A]"

definition scheme_chars :: string where
  "scheme_chars =
     ''abcdefghijklmnopqrstuvwxyzABCDEFGHIJKLMNOPQRSTUVWXYZ0123456789+-.''"

text \<open>\<^verbatim>\<open>_splitnetloc(url, start)\<close>: the netloc ends at the first of \<^verbatim>\<open>/ ? #\<close>.\<close>

definition splitnetloc :: "string \<Rightarrow> nat \<Rightarrow> string \<times> string" where
  "splitnetloc url start =
     (let delim = fold (\<lambda>c delim.
                    let wdelim = str_find url c start
                    in if wdelim \<ge> 0 then min delim (nat wdelim) else delim)
                  ''/?#'' (length url)
      in (drop start (take delim url), drop delim url))"

text \<open>\<^verbatim>\<open>_checknetloc(netloc)\<close>: returns at once on an empty or ASCII netloc.\<close>

definition checknetloc :: "world \<Rightarrow> string \<Rightarrow> exn + unit" where
  "checknetloc w netloc =
     (if netloc = [] \<or> list_all isascii netloc then Inr ()
      else if nfkc_netloc_ok w netloc then Inr ()
      else Inl (ValueError (''netloc '' @ [CHR 0x27] @ netloc @ [CHR 0x27] @
                  '' contains invalid characters under NFKC normalization'')))"

definition urlparse_netloc :: "world \<Rightarrow> string \<Rightarrow> exn + string" where
  "urlparse_netloc w url0 =
     (let url = dropWhile (\<lambda>c. c \<in> set WHATWG_C0_CONTROL_OR_SPACE) url0;
          url = filter (\<lambda>c. c \<notin> set UNSAFE_URL_BYTES_TO_REMOVE) url;
          i = str_find url CHR '':'' 0;
          url = (if i > 0 \<and> isascii (url ! 0) \<and> ascii_isalpha (url ! 0)
                    \<and> list_all (\<lambda>c. c \<in> set scheme_chars) (take (nat i) url)
                 then drop (nat i + 1) url else url)
      in if take 2 url = ''//'' then
           (let netloc = fst (splitnetloc url 2) in
            if (CHR ''['' \<in> set netloc \<and> CHR '']'' \<notin> set netloc)
               \<or> (CHR '']'' \<in> set netloc \<and> CHR ''['' \<notin> set netloc)
            then Inl (ValueError ''Invalid IPv6 URL'')
            else
              bind (if CHR ''['' \<in> set netloc \<and> CHR '']'' \<in> set netloc
                    then check_bracketed_netloc w netloc else Inr ())
                (\<lambda>_. bind (checknetloc w netloc) (\<lambda>_. Inr netloc)))
         else bind (checknetloc w []) (\<lambda>_. Inr []))"


section \<open>The domain normalizer\<close>

text \<open>
  \<^verbatim>\<open>
  def extract_domain(url: str) -> str:
      try:
          if "://" not in url:
              url = "http://" + url
          parsed = urlparse(url)
          domain = parsed.netloc
          return domain[4:] if domain.startswith('www.') else domain
      except:
          return url
  \<close>
  The handler returns the variable \<^verbatim>\<open>url\<close> as it is when \<^verbatim>\<open>urlparse\<close> raises, that
  is after the assignment of the first branch.
\<close>

definition extract_domain :: "world \<Rightarrow> string \<Rightarrow> exn + string" where
  "extract_domain w url0 =
     (let url = (if \<not> str_contains ''://'' url0 then ''http://'' @ url0 else url0) in
      case urlparse_netloc w url of
        Inr domain \<Rightarrow> Inr (if prefix ''www.'' domain then drop 4 domain else domain)
      | Inl e \<Rightarrow> Inr url)"


section \<open>The adapters\<close>

text \<open>\<^verbatim>\<open>except Exception as e: return handler(e)\<close> around a body.\<close>

definition except_Exception :: "exn + string \<Rightarrow> (exn \<Rightarrow> string) \<Rightarrow> exn + string" where
  "except_Exception body handler =
     (case body of Inl e \<Rightarrow> Inr (handler e) | Inr s \<Rightarrow> Inr s)"

text \<open>\<^verbatim>\<open>r[key]\<close> on a dict.\<close>

definition getitem :: "(string \<times> 'v) list \<Rightarrow> string \<Rightarrow> exn + 'v" where
  "getitem r k = (case map_of r k of None \<Rightarrow> Inl (KeyError k) | Some v \<Rightarrow> Inr v)"

text \<open>Truth value of \<^verbatim>\<open>response.get(key)\<close>: absent, \<^verbatim>\<open>None\<close> and empty are false.\<close>

fun truthy :: "'a list option \<Rightarrow> bool" where
  "truthy None = False"
| "truthy (Some xs) = (xs \<noteq> [])"

text \<open>\<^verbatim>\<open>str\<close> of a list of strings, as an f-string prints it.\<close>

fun join :: "string \<Rightarrow> string list \<Rightarrow> string" where
  "join sep [] = []"
| "join sep [x] = x"
| "join sep (x # y # ys) = x @ sep @ join sep (y # ys)"

definition str_list :: "world \<Rightarrow> string list \<Rightarrow> string" where
  "str_list w xs = ''['' @ join '', '' (map (py_repr w) xs) @ '']''"

subsection \<open>The call on the structured-search backend\<close>

text \<open>
  \<^verbatim>\<open>
  tavily = TavilyClient(api_key=os.getenv("TAVILY_API_KEY"))
  response = tavily.search(...)
  \<close>
  The constructor may raise (a missing key), and then no search is made.
\<close>

definition tavily_call :: "world \<Rightarrow> tavily_request \<Rightarrow> (exn + tavily_response) \<times> call list" where
  "tavily_call w req =
     (let key = getenv w ''TAVILY_API_KEY'' in
      case TavilyClient w key of
        Inl e \<Rightarrow> (Inl e, [NewTavilyClient key])
      | Inr tavily \<Rightarrow> (tavily req, [NewTavilyClient key, TavilySearch req]))"

text \<open>
  \<^verbatim>\<open>
  exa = Exa(api_key=os.getenv("EXA_API_KEY"))
  response = exa.search_and_contents(...)
  \<close>
\<close>

definition exa_call :: "world \<Rightarrow> exa_request \<Rightarrow> (exn + exa_response) \<times> call list" where
  "exa_call w req =
     (let key = getenv w ''EXA_API_KEY'' in
      case Exa w key of
        Inl e \<Rightarrow> (Inl e, [NewExa key])
      | Inr exa \<Rightarrow> (exa req, [NewExa key, ExaSearchAndContents req]))"

subsection \<open>\<^verbatim>\<open>search_tavily\<close>\<close>

text \<open>\<^verbatim>\<open>query=query, search_depth=search_depth, max_results=max_results,
  include_answer=True\<close>.\<close>

definition tavily_kwargs :: "string \<Rightarrow> string \<Rightarrow> int \<Rightarrow> tavily_request" where
  "tavily_kwargs query search_depth max_results =
     \<lparr>req_query = query, req_search_depth = Some search_depth,
      req_include_domains = None, req_max_results = max_results,
      req_include_answer = Some True\<rparr>"

text \<open>The f-string of one result:
  \<^verbatim>\<open>f"{i}. {r['title']} - {r['url']}\nSnippet: {r['content'][:200]}\n"\<close>.\<close>

definition tavily_entry :: "nat \<Rightarrow> string \<Rightarrow> string \<Rightarrow> string \<Rightarrow> string" where
  "tavily_entry i title url snippet =
     str_nat i @ ''. '' @ title @ '' - '' @ url @ [CHR 0x0A] @
     ''Snippet: '' @ snippet @ [CHR 0x0A]"

text \<open>\<^verbatim>\<open>for i, r in enumerate(response['results'], 1): formatted += ...\<close>; a missing
  key raises in the middle of the loop.\<close>

fun tavily_loop :: "string \<Rightarrow> nat \<Rightarrow> tavily_result list \<Rightarrow> exn + string" where
  "tavily_loop formatted i [] = Inr formatted"
| "tavily_loop formatted i (r # rs) =
     bind (getitem r ''title'') (\<lambda>title.
     bind (getitem r ''url'') (\<lambda>url.
     bind (getitem r ''content'') (\<lambda>content.
       tavily_loop (formatted @ tavily_entry i title url (take 200 content)) (Suc i) rs)))"

text \<open>The text before the entries: the fixed first line, then
  \<^verbatim>\<open>if response.get('answer'): formatted += f"Quick Summary: {response['answer']}\n"\<close>.\<close>

definition tavily_header :: "tavily_response \<Rightarrow> string" where
  "tavily_header response =
     (let formatted = ''**Tavily Data:**'' @ [CHR 0x0A] in
      if truthy (answer response)
      then formatted @ ''Quick Summary: '' @ the (answer response) @ [CHR 0x0A]
      else formatted)"

definition tavily_format :: "string \<Rightarrow> tavily_response \<Rightarrow> exn + string" where
  "tavily_format query response =
     (if \<not> truthy (results response)
      then Inr (''Notice: No Tavily results for '' @ [CHR 0x27] @ query @ [CHR 0x27] @ ''.'')
      else tavily_loop (tavily_header response) 1 (the (results response)))"

definition search_tavily ::
  "world \<Rightarrow> string \<Rightarrow> string \<Rightarrow> int \<Rightarrow> (exn + string) \<times> call list" where
  "search_tavily w query search_depth max_results =
     (let (response, calls) = tavily_call w (tavily_kwargs query search_depth max_results)
      in (except_Exception (bind response (tavily_format query))
            (\<lambda>e. ''Error: Tavily failed ('' @ str_exn e @ '')''),
          calls))"

subsection \<open>\<^verbatim>\<open>search_exa\<close>\<close>

text \<open>\<^verbatim>\<open>query=query, num_results=num_results, use_autoprompt=use_autoprompt,
  text={"max_characters": 800}\<close>.\<close>

definition exa_kwargs :: "string \<Rightarrow> int \<Rightarrow> bool \<Rightarrow> exa_request" where
  "exa_kwargs query num_results use_autoprompt =
     \<lparr>exa_query = query, exa_num_results = num_results,
      exa_use_autoprompt = use_autoprompt, exa_text = [(''max_characters'', 800)]\<rparr>"

text \<open>\<^verbatim>\<open>f"{i}. {r.title} - {r.url}\nText: {r.text[:200]}...\n"\<close>.\<close>

definition exa_entry :: "nat \<Rightarrow> string \<Rightarrow> string \<Rightarrow> string \<Rightarrow> string" where
  "exa_entry i title url snippet =
     str_nat i @ ''. '' @ title @ '' - '' @ url @ [CHR 0x0A] @
     ''Text: '' @ snippet @ ''...'' @ [CHR 0x0A]"

fun exa_loop :: "string \<Rightarrow> nat \<Rightarrow> exa_result list \<Rightarrow> exn + string" where
  "exa_loop formatted i [] = Inr formatted"
| "exa_loop formatted i (r # rs) =
     exa_loop (formatted @ exa_entry i (res_title r) (res_url r) (take 200 (res_text r)))
       (Suc i) rs"

definition exa_format :: "string \<Rightarrow> exa_response \<Rightarrow> exn + string" where
  "exa_format query response =
     (if exa_results response = []
      then Inr (''Notice: No Exa results for '' @ [CHR 0x27] @ query @ [CHR 0x27] @ ''.'')
      else exa_loop (''**Exa Neural Data:**'' @ [CHR 0x0A]) 1 (exa_results response))"

definition search_exa ::
  "world \<Rightarrow> string \<Rightarrow> int \<Rightarrow> bool \<Rightarrow> (exn + string) \<times> call list" where
  "search_exa w query num_results use_autoprompt =
     (let (response, calls) = exa_call w (exa_kwargs query num_results use_autoprompt)
      in (except_Exception (bind response (exa_format query))
            (\<lambda>e. ''Error: Exa failed ('' @ str_exn e @ '')''),
          calls))"

subsection \<open>\<^verbatim>\<open>search_with_urls\<close>\<close>

text \<open>\<^verbatim>\<open>[extract_domain(u) for u in urls]\<close>, before the \<^verbatim>\<open>try\<close>: an exception of
  \<^verbatim>\<open>extract_domain\<close> would leave the adapter.\<close>

fun comprehension :: "('a \<Rightarrow> exn + 'b) \<Rightarrow> 'a list \<Rightarrow> exn + 'b list" where
  "comprehension f [] = Inr []"
| "comprehension f (x # xs) =
     bind (f x) (\<lambda>y. bind (comprehension f xs) (\<lambda>ys. Inr (y # ys)))"

text \<open>\<^verbatim>\<open>query=query, include_domains=domains, max_results=max_results\<close>.\<close>

definition urls_kwargs :: "string \<Rightarrow> string list \<Rightarrow> int \<Rightarrow> tavily_request" where
  "urls_kwargs query domains max_results =
     \<lparr>req_query = query, req_search_depth = None,
      req_include_domains = Some domains, req_max_results = max_results,
      req_include_answer = None\<rparr>"

text \<open>\<^verbatim>\<open>f"- {r['title']} ({r['url']}): {r['content'][:200]}\n"\<close>.\<close>

definition urls_entry :: "string \<Rightarrow> string \<Rightarrow> string \<Rightarrow> string" where
  "urls_entry title url snippet =
     ''- '' @ title @ '' ('' @ url @ ''): '' @ snippet @ [CHR 0x0A]"

fun urls_loop :: "string \<Rightarrow> tavily_result list \<Rightarrow> exn + string" where
  "urls_loop formatted [] = Inr formatted"
| "urls_loop formatted (r # rs) =
     bind (getitem r ''title'') (\<lambda>title.
     bind (getitem r ''url'') (\<lambda>url.
     bind (getitem r ''content'') (\<lambda>content.
       urls_loop (formatted @ urls_entry title url (take 200 content)) rs)))"

definition urls_format :: "world \<Rightarrow> string list \<Rightarrow> tavily_response \<Rightarrow> exn + string" where
  "urls_format w domains response =
     (if \<not> truthy (results response)
      then Inr (''Notice: No data found within domains '' @ str_list w domains @ ''.'')
      else urls_loop (''**Targeted Domain Results:**'' @ [CHR 0x0A]) (the (results response)))"

text \<open>The parameter \<^verbatim>\<open>use_tool\<close> is not read by the body.\<close>

definition search_with_urls ::
  "world \<Rightarrow> string \<Rightarrow> string list \<Rightarrow> string \<Rightarrow> int \<Rightarrow> (exn + string) \<times> call list" where
  "search_with_urls w query urls use_tool max_results =
     (case comprehension (extract_domain w) urls of
        Inl e \<Rightarrow> (Inl e, [])
      | Inr domains \<Rightarrow>
          (let (response, calls) = tavily_call w (urls_kwargs query domains max_results)
           in (except_Exception (bind response (urls_format w domains))
                 (\<lambda>e. ''Error: Domain search failed ('' @ str_exn e @ '')''),
               calls)))"


section \<open>Notions used to state the properties\<close>

text \<open>A result dict that has the three fields the adapters read, and the value of a
  field of such a dict.\<close>

definition has_fields :: "tavily_result \<Rightarrow> bool" where
  "has_fields r =
     (map_of r ''title'' \<noteq> None \<and> map_of r ''url'' \<noteq> None \<and> map_of r ''content'' \<noteq> None)"

definition field :: "tavily_result \<Rightarrow> string \<Rightarrow> string" where
  "field r k = the (map_of r k)"

text \<open>The parts of a URL \<^verbatim>\<open>scheme://host/rest\<close> on which the normalizer is described:
  a scheme as \<^verbatim>\<open>urlsplit\<close> accepts it (a letter, then letters, digits and \<^verbatim>\<open>+ - .\<close>);
  a host of ASCII characters without \<^verbatim>\<open>/ ? # [ ]\<close>, tab and line breaks (user, password
  and port are part of it); a rest that is empty or starts with \<^verbatim>\<open>/\<close>, \<^verbatim>\<open>?\<close> or
  \<^verbatim>\<open>#\<close>.\<close>

definition is_scheme :: "string \<Rightarrow> bool" where
  "is_scheme s = (s \<noteq> [] \<and> ascii_isalpha (hd s) \<and> list_all (\<lambda>c. c \<in> set scheme_chars) s)"

definition is_plain_host :: "string \<Rightarrow> bool" where
  "is_plain_host h =
     list_all (\<lambda>c. isascii c \<and> c \<notin> set ''/?#[]'' \<and> c \<notin> set UNSAFE_URL_BYTES_TO_REMOVE) h"

definition is_rest :: "string \<Rightarrow> bool" where
  "is_rest p = (p = [] \<or> hd p \<in> set ''/?#'')"

text \<open>The calls of a run that go to the structured-search library.\<close>

fun is_tavily :: "call \<Rightarrow> bool" where
  "is_tavily (NewTavilyClient _) = True"
| "is_tavily (TavilySearch _) = True"
| "is_tavily (NewExa _) = False"
| "is_tavily (ExaSearchAndContents _) = False"

text \<open>The lines of a text, and the number of entries of a Tavily listing: every entry
  has one line that starts with \<^verbatim>\<open>Snippet: \<close>.\<close>

fun splitlines :: "string \<Rightarrow> string list" where
  "splitlines [] = []"
| "splitlines (c # cs) =
     (if c = CHR 0x0A then [] # splitlines cs
      else (case splitlines cs of [] \<Rightarrow> [[c]] | l # ls \<Rightarrow> (c # l) # ls))"

definition count_entries :: "string \<Rightarrow> nat" where
  "count_entries out = length (filter (prefix ''Snippet: '') (splitlines out))"

text \<open>Environments for the concrete runs: the standard-library checks pass, \<^verbatim>\<open>repr\<close>
  puts single quotes around a plain string, the API keys are set. In \<open>world_of\<close> the
  structured-search backend answers every request with the given response and the
  semantic-search backend with the given results; in \<open>failing_world\<close> both backends
  raise.\<close>

definition world_of :: "tavily_response \<Rightarrow> exa_result list \<Rightarrow> world" where
  "world_of response rs =
     \<lparr>check_bracketed_netloc = (\<lambda>_. Inr ()), nfkc_netloc_ok = (\<lambda>_. True),
      py_repr = (\<lambda>s. [CHR 0x27] @ s @ [CHR 0x27]),
      getenv = (\<lambda>_. Some ''key''),
      TavilyClient = (\<lambda>_. Inr (\<lambda>_. Inr response)),
      Exa = (\<lambda>_. Inr (\<lambda>_. Inr \<lparr>exa_results = rs\<rparr>))\<rparr>"

definition failing_world :: world where
  "failing_world =
     \<lparr>check_bracketed_netloc = (\<lambda>_. Inr ()), nfkc_netloc_ok = (\<lambda>_. True),
      py_repr = (\<lambda>s. [CHR 0x27] @ s @ [CHR 0x27]),
      getenv = (\<lambda>_. Some ''key''),
      TavilyClient = (\<lambda>_. Inr (\<lambda>_. Inl (Raised ''timed out''))),
      Exa = (\<lambda>_. Inr (\<lambda>_. Inl (Raised ''timed out'')))\<rparr>"

definition result3 :: "string \<Rightarrow> string \<Rightarrow> string \<Rightarrow> tavily_result" where
  "result3 t u c = [(''title'', t), (''url'', u), (''content'', c)]"


text \<open>Sample responses for the concrete runs: two and three short results, two
  results of which the second has no \<^verbatim>\<open>content\<close>, and one result whose text is 250
  characters long.\<close>

definition two_results :: "tavily_result list" where
  "two_results = [result3 ''T1'' ''U1'' ''C1'', result3 ''T2'' ''U2'' ''C2'']"



definition long_results :: "tavily_result list" where
  "long_results = [result3 ''T1'' ''U1'' (replicate 250 CHR ''a'')]"

definition long_exa_results :: "exa_result list" where
  "long_exa_results = [\<lparr>res_title = ''T1'', res_url = ''U1'', res_text = replicate 250 CHR ''a''\<rparr>]"

definition long_world :: world where
  "long_world = world_of \<lparr>answer = None, results = Some long_results\<rparr> long_exa_results"


section \<open>Properties of the domain normalizer\<close>

lemmas urlparse_defs =
  extract_domain_def urlparse_netloc_def WHATWG_C0_CONTROL_OR_SPACE_def
  UNSAFE_URL_BYTES_TO_REMOVE_def str_find_def isascii_def ascii_isalpha_def
  scheme_chars_def splitnetloc_def checknetloc_def bind_def Let_def

text \<open>The bare \<^verbatim>\<open>except\<close> covers the whole body: every call returns a string.\<close>

lemma extract_domain_returns: "\<exists>s. extract_domain w url = Inr s"
  by (simp add: extract_domain_def Let_def split: sum.split)

lemma comprehension_extract_domain:
  "\<exists>domains. comprehension (extract_domain w) urls = Inr domains
      \<and> list_all2 (\<lambda>u d. extract_domain w u = Inr d) urls domains"
proof (induction urls)
  case Nil
  show ?case by simp
next
  case (Cons u us)
  then obtain ds where ds: "comprehension (extract_domain w) us = Inr ds"
    "list_all2 (\<lambda>u d. extract_domain w u = Inr d) us ds" by blast
  obtain d where d: "extract_domain w u = Inr d"
    using extract_domain_returns by blast
  show ?case using ds d by (simp add: bind_def)
qed

lemma comprehension_eq:
  "list_all2 (\<lambda>u d. f u = Inr d) urls domains \<Longrightarrow> comprehension f urls = Inr domains"
  by (induction urls domains rule: list_all2_induct) (simp_all add: bind_def)

text \<open>
  C5. The claim: \<^verbatim>\<open>extract_domain\<close> never raises and, when parsing fails, returns the
  original input unchanged. The code at the input \<^verbatim>\<open>"[abc"\<close>, which has no
  \<^verbatim>\<open>"://"\<close>: the variable \<^verbatim>\<open>url\<close> is rebound to \<^verbatim>\<open>"http://[abc"\<close>, \<^verbatim>\<open>urlparse\<close>
  raises \<^verbatim>\<open>ValueError("Invalid IPv6 URL")\<close> on the unmatched bracket, and the handler
  returns the rebound \<^verbatim>\<open>url\<close>: the result is \<^verbatim>\<open>"http://[abc"\<close>, not the input.
\<close>

theorem extract_domain_parse_failure_prefixed:
  "extract_domain w ''[abc'' = Inr ''http://[abc''"
  by (simp add: urlparse_defs)

subsection \<open>The netloc of a plain URL\<close>

lemma str_index_append:
  "c \<notin> set xs \<Longrightarrow>
   str_index c (xs @ ys) = map_option (\<lambda>k. length xs + k) (str_index c ys)"
proof (induction xs)
  case Nil
  show ?case by (cases "str_index c ys") simp_all
next
  case (Cons x xs)
  then show ?case by (cases "str_index c ys") auto
qed

lemma str_index_self: "str_index c (xs @ c # ys) = (if c \<in> set xs then str_index c xs else Some (length xs))"
  by (induction xs) auto

lemma str_contains_prefix: "prefix sub xs \<Longrightarrow> str_contains sub xs"
  by (cases xs) simp_all

lemma str_contains_append: "str_contains sub (xs @ sub @ ys)"
  by (induction xs) (simp_all add: str_contains_prefix)

lemma ascii_isalpha_isascii: "ascii_isalpha c \<Longrightarrow> isascii c"
  by (auto simp: ascii_isalpha_def isascii_def)

lemma scheme_char_props:
  "c \<in> set scheme_chars \<Longrightarrow>
     c \<noteq> CHR '':'' \<and> c \<notin> set UNSAFE_URL_BYTES_TO_REMOVE \<and> c \<notin> set WHATWG_C0_CONTROL_OR_SPACE"
  by (auto simp: scheme_chars_def UNSAFE_URL_BYTES_TO_REMOVE_def WHATWG_C0_CONTROL_OR_SPACE_def)


lemma str_index_absent: "c \<notin> set xs \<Longrightarrow> str_index c xs = None"
  by (induction xs) auto

lemma str_find_absent: "c \<notin> set h \<Longrightarrow> str_find (a # b # h) c 2 = - 1"
  by (simp add: str_find_def str_index_absent)

lemma str_find_rest:
  "c \<notin> set h \<Longrightarrow>
   str_find (a # b # h @ x # xs) c 2 =
     (case str_index c (x # xs) of None \<Rightarrow> - 1 | Some k \<Rightarrow> int (2 + (length h + k)))"
  by (cases "str_index c (x # xs)") (simp_all add: str_find_def str_index_append)

lemma delim_step_ge:
  fixes v :: int
  assumes "v = - 1 \<or> int n \<le> v" and "n \<le> d"
  shows "n \<le> (if 0 \<le> v then min d (nat v) else d)"
  using assms by auto

lemma delim_step_eq:
  fixes v :: int
  assumes "v = - 1 \<or> int n \<le> v" and "n \<le> d" and "d = n \<or> v = int n"
  shows "(if 0 \<le> v then min d (nat v) else d) = n"
  using assms by auto

lemma delim_min:
  fixes g :: "char \<Rightarrow> int"
  assumes a: "g CHR ''/'' = - 1 \<or> int n \<le> g CHR ''/''"
    and b: "g CHR ''?'' = - 1 \<or> int n \<le> g CHR ''?''"
    and c: "g CHR ''#'' = - 1 \<or> int n \<le> g CHR ''#''"
    and hit: "g CHR ''/'' = int n \<or> g CHR ''?'' = int n \<or> g CHR ''#'' = int n"
    and L: "n \<le> L"
  shows "fold (\<lambda>c delim. let wdelim = g c in if wdelim \<ge> 0 then min delim (nat wdelim) else delim)
           ''/?#'' L = n"
proof -
  define d1 where "d1 = (if 0 \<le> g CHR ''/'' then min L (nat (g CHR ''/'')) else L)"
  define d2 where "d2 = (if 0 \<le> g CHR ''?'' then min d1 (nat (g CHR ''?'')) else d1)"
  define d3 where "d3 = (if 0 \<le> g CHR ''#'' then min d2 (nat (g CHR ''#'')) else d2)"
  have f: "fold (\<lambda>c delim. let wdelim = g c in if wdelim \<ge> 0 then min delim (nat wdelim) else delim)
           ''/?#'' L = d3"
    by (simp only: fold_simps fold.simps comp_def Let_def d1_def d2_def d3_def id_def)
  have g1: "n \<le> d1" unfolding d1_def by (rule delim_step_ge [OF a L])
  have g2: "n \<le> d2" unfolding d2_def by (rule delim_step_ge [OF b g1])
  have e1: "g CHR ''/'' = int n \<Longrightarrow> d1 = n"
    unfolding d1_def by (rule delim_step_eq [OF a L]) simp
  have e2: "d1 = n \<or> g CHR ''?'' = int n \<Longrightarrow> d2 = n"
    unfolding d2_def by (rule delim_step_eq [OF b g1])
  have e3: "d2 = n \<or> g CHR ''#'' = int n \<Longrightarrow> d3 = n"
    unfolding d3_def by (rule delim_step_eq [OF c g2])
  from hit e1 e2 e3 have "d3 = n" by blast
  with f show ?thesis by simp
qed

lemma splitnetloc_plain:
  assumes h: "list_all (\<lambda>c. c \<notin> set ''/?#'') h" and p: "is_rest p"
  shows "fst (splitnetloc (''//'' @ h @ p) 2) = h"
proof -
  have nh: "CHR ''/'' \<notin> set h" "CHR ''?'' \<notin> set h" "CHR ''#'' \<notin> set h"
    using h by (auto simp: list_all_iff)
  show ?thesis
  proof (cases p)
    case Nil
    then show ?thesis
      by (simp add: splitnetloc_def str_find_absent nh)
  next
    case (Cons x xs)
    with p have x: "x = CHR ''/'' \<or> x = CHR ''?'' \<or> x = CHR ''#''"
      by (simp add: is_rest_def)
    let ?url = "CHR ''/'' # CHR ''/'' # h @ x # xs"
    let ?n = "2 + length h"
    have range: "str_find ?url c 2 = - 1 \<or> int ?n \<le> str_find ?url c 2" if "c \<notin> set h" for c
      using that by (cases "str_index c (x # xs)") (simp_all add: str_find_rest del: str_index.simps)
    have at: "str_find ?url x 2 = int ?n" if "x \<notin> set h"
      using that by (simp add: str_find_rest)
    have hit: "str_find ?url CHR ''/'' 2 = int ?n \<or> str_find ?url CHR ''?'' 2 = int ?n
        \<or> str_find ?url CHR ''#'' 2 = int ?n"
      using x at nh by blast
    have delim: "fold (\<lambda>c delim.
                    let wdelim = str_find ?url c 2
                    in if wdelim \<ge> 0 then min delim (nat wdelim) else delim)
                  ''/?#'' (length ?url) = ?n"
      by (rule delim_min [OF range [OF nh(1)] range [OF nh(2)] range [OF nh(3)] hit]) simp
    have "fst (splitnetloc ?url 2) = h"
      by (subst splitnetloc_def, subst delim) simp
    then show ?thesis by (simp add: Cons)
  qed
qed


lemma is_rest_filter:
  "is_rest p \<Longrightarrow> is_rest (filter (\<lambda>c. c \<notin> set UNSAFE_URL_BYTES_TO_REMOVE) p)"
  by (cases p) (auto simp: is_rest_def UNSAFE_URL_BYTES_TO_REMOVE_def)

lemma urlparse_netloc_plain:
  assumes s: "is_scheme s" and h: "is_plain_host h" and p: "is_rest p"
  shows "urlparse_netloc w (s @ ''://'' @ h @ p) = Inr h"
proof -
  let ?C0 = "\<lambda>c. c \<in> set WHATWG_C0_CONTROL_OR_SPACE"
  let ?Q = "\<lambda>c. c \<notin> set UNSAFE_URL_BYTES_TO_REMOVE"
  define p' where "p' = filter ?Q p"
  from s obtain a s' where sa: "s = a # s'" and alpha: "ascii_isalpha a"
    and sch: "list_all (\<lambda>c. c \<in> set scheme_chars) s"
    by (cases s) (auto simp: is_scheme_def)
  have sprops: "\<forall>c\<in>set s. c \<noteq> CHR '':'' \<and> ?Q c \<and> \<not> ?C0 c"
    using sch scheme_char_props by (auto simp: list_all_iff)
  have hprops: "\<forall>c\<in>set h. isascii c \<and> c \<notin> set ''/?#[]'' \<and> ?Q c"
    using h by (auto simp: is_plain_host_def list_all_iff)
  have d: "dropWhile ?C0 (s @ ''://'' @ h @ p) = s @ ''://'' @ h @ p"
    using sprops by (simp add: sa)
  have f: "filter ?Q (s @ ''://'' @ h @ p) = s @ ''://'' @ h @ p'"
  proof -
    have "filter ?Q s = s" using sprops by (simp add: filter_id_conv)
    moreover have "filter ?Q h = h" using hprops by (simp add: filter_id_conv)
    moreover have "filter ?Q ''://'' = ''://''" by (simp add: UNSAFE_URL_BYTES_TO_REMOVE_def)
    ultimately show ?thesis by (simp only: filter_append p'_def)
  qed
  have i: "str_find (s @ ''://'' @ h @ p') CHR '':'' 0 = int (length s)"
  proof -
    have "CHR '':'' \<notin> set s" using sprops by blast
    then show ?thesis by (simp add: str_find_def str_index_self)
  qed
  have c0: "(s @ ''://'' @ h @ p') ! 0 = a" by (simp add: sa)
  have tk: "take (length s) (s @ ''://'' @ h @ p') = s" by simp
  have dr: "drop (length s + 1) (s @ ''://'' @ h @ p') = ''//'' @ h @ p'" by simp
  have t2: "take 2 (''//'' @ h @ p') = ''//''" by simp
  have nl: "fst (splitnetloc (''//'' @ h @ p') 2) = h"
  proof (rule splitnetloc_plain)
    show "list_all (\<lambda>c. c \<notin> set ''/?#'') h" using hprops by (auto simp: list_all_iff)
    show "is_rest p'" unfolding p'_def by (rule is_rest_filter [OF p])
  qed
  have br: "CHR ''['' \<notin> set h" "CHR '']'' \<notin> set h" using hprops by auto
  have ck: "checknetloc w h = Inr ()"
    using hprops by (simp add: checknetloc_def list_all_iff)
  have pos: "0 < int (length s)" by (simp add: sa)
  show ?thesis
    unfolding urlparse_netloc_def Let_def d f i nat_int c0 tk dr t2 nl
    using pos alpha sch br ck ascii_isalpha_isascii [OF alpha] nl
    by (simp add: bind_def)
qed

text \<open>
  C6. \<^verbatim>\<open>extract_domain("https://www.example.com/path")\<close> is \<^verbatim>\<open>"example.com"\<close>, and so
  is \<^verbatim>\<open>extract_domain("example.com")\<close>. The rule behind the examples: for a URL
  \<^verbatim>\<open>scheme://host\<close> followed by nothing or by a path, query or fragment, the result is
  the host without the scheme and the rest, and without its leading \<^verbatim>\<open>www.\<close>; an
  input without \<^verbatim>\<open>"://"\<close> is handled as the same input with \<^verbatim>\<open>"http://"\<close> in front,
  so a bare host with or without a path gives the host without its leading \<^verbatim>\<open>www.\<close>.
\<close>

theorem extract_domain_rule:
  "extract_domain w ''https://www.example.com/path'' = Inr ''example.com''
   \<and> extract_domain w ''example.com'' = Inr ''example.com''
   \<and> (is_scheme s \<and> is_plain_host h \<and> is_rest p
        \<longrightarrow> extract_domain w (s @ ''://'' @ h @ p)
              = Inr (if prefix ''www.'' h then drop 4 h else h))
   \<and> (\<not> str_contains ''://'' url
        \<longrightarrow> extract_domain w url = extract_domain w (''http://'' @ url))
   \<and> (is_plain_host h \<and> is_rest p \<and> \<not> str_contains ''://'' (h @ p)
        \<longrightarrow> extract_domain w (h @ p) = Inr (if prefix ''www.'' h then drop 4 h else h))"
proof -
  have ex: "extract_domain w ''https://www.example.com/path'' = Inr ''example.com''
      \<and> extract_domain w ''example.com'' = Inr ''example.com''"
    by (simp add: urlparse_defs)
  have full: "extract_domain w (s @ ''://'' @ h @ p)
      = Inr (if prefix ''www.'' h then drop 4 h else h)"
    if "is_scheme s" "is_plain_host h" "is_rest p" for s h p
    using str_contains_append [of "''://''" s "h @ p"] urlparse_netloc_plain [OF that, of w]
    by (simp add: extract_domain_def Let_def)
  have pre: "extract_domain w url = extract_domain w (''http://'' @ url)"
    if "\<not> str_contains ''://'' url" for url
    using that str_contains_append [of "''://''" "''http''" url]
    by (simp add: extract_domain_def Let_def)
  have http: "is_scheme ''http''"
    by (simp add: is_scheme_def ascii_isalpha_def scheme_chars_def)
  have bare: "extract_domain w (h @ p) = Inr (if prefix ''www.'' h then drop 4 h else h)"
    if "is_plain_host h" "is_rest p" "\<not> str_contains ''://'' (h @ p)" for h p
    using pre [OF that(3)] full [OF http that(1) that(2)] by simp
  from ex full pre bare show ?thesis by blast
qed

theorem extract_domain_rule_witness:
  "is_scheme ''https'' \<and> is_plain_host ''www.example.com'' \<and> is_rest ''/path''
   \<and> extract_domain (world_of \<lparr>answer = None, results = None\<rparr> [])
        (''https'' @ ''://'' @ ''www.example.com'' @ ''/path'') = Inr ''example.com''
   \<and> \<not> str_contains ''://'' ''example.com''
   \<and> extract_domain (world_of \<lparr>answer = None, results = None\<rparr> []) ''example.com''
       = extract_domain (world_of \<lparr>answer = None, results = None\<rparr> [])
           (''http://'' @ ''example.com'')
   \<and> is_plain_host ''example.com'' \<and> is_rest []
   \<and> \<not> str_contains ''://'' (''example.com'' @ [])
   \<and> extract_domain (world_of \<lparr>answer = None, results = None\<rparr> []) (''example.com'' @ [])
       = Inr ''example.com''"
proof -
  let ?w = "world_of \<lparr>answer = None, results = None\<rparr> []"
  have s: "is_scheme ''https''"
    by (simp add: is_scheme_def ascii_isalpha_def scheme_chars_def)
  have h1: "is_plain_host ''www.example.com''"
    by (simp add: is_plain_host_def isascii_def UNSAFE_URL_BYTES_TO_REMOVE_def)
  have h2: "is_plain_host ''example.com''"
    by (simp add: is_plain_host_def isascii_def UNSAFE_URL_BYTES_TO_REMOVE_def)
  have p1: "is_rest ''/path''" by (simp add: is_rest_def)
  have p2: "is_rest []" by (simp add: is_rest_def)
  have n: "\<not> str_contains ''://'' ''example.com''" by simp
  have n': "\<not> str_contains ''://'' (''example.com'' @ [])" by simp
  have w1: "prefix ''www.'' ''www.example.com''" by simp
  have w2: "\<not> prefix ''www.'' ''example.com''" by simp
  have a: "extract_domain ?w (''https'' @ ''://'' @ ''www.example.com'' @ ''/path'')
      = Inr ''example.com''"
    using extract_domain_rule [of ?w "''https''" "''www.example.com''" "''/path''" "''example.com''"] s h1 p1 w1
    by simp
  have b: "extract_domain ?w ''example.com'' = extract_domain ?w (''http://'' @ ''example.com'')"
    using extract_domain_rule [of ?w "''https''" "''www.example.com''" "''/path''" "''example.com''"] n
    by blast
  have c: "extract_domain ?w (''example.com'' @ []) = Inr ''example.com''"
    using extract_domain_rule [of ?w "''https''" "''example.com''" "[]" "''example.com''"] h2 p2 n' w2
    by simp
  from s h1 p1 a n b h2 p2 n' c show ?thesis by blast
qed

text \<open>
  C10. The prefix \<^verbatim>\<open>www.\<close> is matched case-sensitively and removed once:
  \<^verbatim>\<open>"https://WWW.example.com"\<close> gives \<^verbatim>\<open>"WWW.example.com"\<close> and
  \<^verbatim>\<open>"https://www.www.example.com"\<close> gives \<^verbatim>\<open>"www.example.com"\<close>. In general, when the
  parsed netloc is \<^verbatim>\<open>www.\<close> followed by \<open>rest\<close> the result is \<open>rest\<close>, whatever
  \<open>rest\<close> starts with, and a netloc that does not start with the lowercase \<^verbatim>\<open>www.\<close> is
  returned as it is.
\<close>

theorem extract_domain_www_once:
  "extract_domain w ''https://WWW.example.com'' = Inr ''WWW.example.com''
   \<and> extract_domain w ''https://www.www.example.com'' = Inr ''www.example.com''
   \<and> (urlparse_netloc w (if str_contains ''://'' url then url else ''http://'' @ url)
          = Inr (''www.'' @ rest)
        \<longrightarrow> extract_domain w url = Inr rest)
   \<and> (urlparse_netloc w (if str_contains ''://'' url then url else ''http://'' @ url)
          = Inr netloc \<and> \<not> prefix ''www.'' netloc
        \<longrightarrow> extract_domain w url = Inr netloc)"
proof -
  have ex: "extract_domain w ''https://WWW.example.com'' = Inr ''WWW.example.com''
      \<and> extract_domain w ''https://www.www.example.com'' = Inr ''www.example.com''"
    by (simp add: urlparse_defs)
  have gen1: "urlparse_netloc w (if str_contains ''://'' url then url else ''http://'' @ url)
          = Inr (''www.'' @ rest) \<longrightarrow> extract_domain w url = Inr rest"
    by (simp add: extract_domain_def Let_def)
  have gen2: "urlparse_netloc w (if str_contains ''://'' url then url else ''http://'' @ url)
          = Inr netloc \<and> \<not> prefix ''www.'' netloc \<longrightarrow> extract_domain w url = Inr netloc"
    by (simp add: extract_domain_def Let_def)
  from ex gen1 gen2 show ?thesis by blast
qed

theorem extract_domain_www_once_witness:
  "urlparse_netloc (world_of \<lparr>answer = None, results = None\<rparr> [])
       ''https://www.www.example.com'' = Inr (''www.'' @ ''www.example.com'')
   \<and> extract_domain (world_of \<lparr>answer = None, results = None\<rparr> [])
       ''https://www.www.example.com'' = Inr ''www.example.com''
   \<and> urlparse_netloc (world_of \<lparr>answer = None, results = None\<rparr> [])
       ''https://WWW.example.com'' = Inr ''WWW.example.com''
   \<and> \<not> prefix ''www.'' ''WWW.example.com''
   \<and> extract_domain (world_of \<lparr>answer = None, results = None\<rparr> [])
       ''https://WWW.example.com'' = Inr ''WWW.example.com''"
proof -
  have n1: "urlparse_netloc (world_of \<lparr>answer = None, results = None\<rparr> [])
       ''https://www.www.example.com'' = Inr (''www.'' @ ''www.example.com'')"
    by (simp add: urlparse_defs)
  have n2: "urlparse_netloc (world_of \<lparr>answer = None, results = None\<rparr> [])
       ''https://WWW.example.com'' = Inr ''WWW.example.com''"
    by (simp add: urlparse_defs)
  have c: "str_contains ''://'' ''https://www.www.example.com''"
    "str_contains ''://'' ''https://WWW.example.com''"
    by simp_all
  have p: "\<not> prefix ''www.'' ''WWW.example.com''" by simp
  show ?thesis
    using n1 n2 p c
      extract_domain_www_once [of "world_of \<lparr>answer = None, results = None\<rparr> []"
        "''https://www.www.example.com''" "''www.example.com''"
        "''WWW.example.com''"]
      extract_domain_www_once [of "world_of \<lparr>answer = None, results = None\<rparr> []"
        "''https://WWW.example.com''" "''example.com''" "''WWW.example.com''"]
    by simp
qed


section \<open>Properties of the adapters\<close>

lemmas world_defs = world_of_def failing_world_def tavily_call_def exa_call_def
  tavily_kwargs_def exa_kwargs_def urls_kwargs_def

lemma nu_domain: "extract_domain w ''https://www.nu.edu.eg/page'' = Inr ''nu.edu.eg''"
  by (simp add: urlparse_defs)

lemma except_Exception_returns: "\<exists>s. except_Exception body handler = Inr s"
  by (simp add: except_Exception_def split: sum.split)

lemma except_Exception_Inl: "except_Exception (bind (Inl e) f) handler = Inr (handler e)"
  by (simp add: except_Exception_def bind_def)

lemma search_tavily_fst:
  "fst (search_tavily w query search_depth max_results) =
     except_Exception
       (bind (fst (tavily_call w (tavily_kwargs query search_depth max_results)))
          (tavily_format query))
       (\<lambda>e. ''Error: Tavily failed ('' @ str_exn e @ '')'')"
  by (simp add: search_tavily_def split: prod.split)


lemma search_exa_fst:
  "fst (search_exa w query num_results use_autoprompt) =
     except_Exception
       (bind (fst (exa_call w (exa_kwargs query num_results use_autoprompt)))
          (exa_format query))
       (\<lambda>e. ''Error: Exa failed ('' @ str_exn e @ '')'')"
  by (simp add: search_exa_def split: prod.split)

lemma search_with_urls_fst:
  "comprehension (extract_domain w) urls = Inr domains \<Longrightarrow>
   fst (search_with_urls w query urls use_tool max_results) =
     except_Exception
       (bind (fst (tavily_call w (urls_kwargs query domains max_results)))
          (urls_format w domains))
       (\<lambda>e. ''Error: Domain search failed ('' @ str_exn e @ '')'')"
  by (simp add: search_with_urls_def split: prod.split)

lemma search_with_urls_snd:
  "comprehension (extract_domain w) urls = Inr domains \<Longrightarrow>
   snd (search_with_urls w query urls use_tool max_results) =
     snd (tavily_call w (urls_kwargs query domains max_results))"
  by (simp add: search_with_urls_def split: prod.split)

text \<open>
  C1. No adapter raises: each of the three returns a string whatever the backend does.
  When the call on the backend raises \<open>e\<close> (in the constructor of the client or in the
  search), the string returned begins with \<^verbatim>\<open>Error:\<close>. For \<^verbatim>\<open>search_with_urls\<close> the
  request carries the normalized domains of the URLs.
\<close>

theorem adapters_catch_backend_errors:
  "(\<exists>s. fst (search_tavily w query search_depth max_results) = Inr s)
   \<and> (\<exists>s. fst (search_exa w query num_results use_autoprompt) = Inr s)
   \<and> (\<exists>s. fst (search_with_urls w query urls use_tool max_results) = Inr s)
   \<and> (fst (tavily_call w (tavily_kwargs query search_depth max_results)) = Inl e
        \<longrightarrow> (\<exists>s. fst (search_tavily w query search_depth max_results) = Inr s
                 \<and> prefix ''Error:'' s))
   \<and> (fst (exa_call w (exa_kwargs query num_results use_autoprompt)) = Inl e
        \<longrightarrow> (\<exists>s. fst (search_exa w query num_results use_autoprompt) = Inr s
                 \<and> prefix ''Error:'' s))
   \<and> (list_all2 (\<lambda>u d. extract_domain w u = Inr d) urls domains
        \<and> fst (tavily_call w (urls_kwargs query domains max_results)) = Inl e
        \<longrightarrow> (\<exists>s. fst (search_with_urls w query urls use_tool max_results) = Inr s
                 \<and> prefix ''Error:'' s))"
proof -
  obtain ds where ds: "comprehension (extract_domain w) urls = Inr ds"
    using comprehension_extract_domain by blast
  have r1: "\<exists>s. fst (search_tavily w query search_depth max_results) = Inr s"
    by (simp only: search_tavily_fst except_Exception_returns)
  have r2: "\<exists>s. fst (search_exa w query num_results use_autoprompt) = Inr s"
    by (simp only: search_exa_fst except_Exception_returns)
  have r3: "\<exists>s. fst (search_with_urls w query urls use_tool max_results) = Inr s"
    by (simp only: search_with_urls_fst [OF ds] except_Exception_returns)
  have e1: "fst (tavily_call w (tavily_kwargs query search_depth max_results)) = Inl e
        \<longrightarrow> (\<exists>s. fst (search_tavily w query search_depth max_results) = Inr s
                 \<and> prefix ''Error:'' s)"
    by (simp add: search_tavily_fst except_Exception_Inl)
  have e2: "fst (exa_call w (exa_kwargs query num_results use_autoprompt)) = Inl e
        \<longrightarrow> (\<exists>s. fst (search_exa w query num_results use_autoprompt) = Inr s
                 \<and> prefix ''Error:'' s)"
    by (simp add: search_exa_fst except_Exception_Inl)
  have e3: "list_all2 (\<lambda>u d. extract_domain w u = Inr d) urls domains
        \<and> fst (tavily_call w (urls_kwargs query domains max_results)) = Inl e
        \<longrightarrow> (\<exists>s. fst (search_with_urls w query urls use_tool max_results) = Inr s
                 \<and> prefix ''Error:'' s)"
  proof (intro impI, elim conjE)
    assume a: "list_all2 (\<lambda>u d. extract_domain w u = Inr d) urls domains"
      and b: "fst (tavily_call w (urls_kwargs query domains max_results)) = Inl e"
    show "\<exists>s. fst (search_with_urls w query urls use_tool max_results) = Inr s
                 \<and> prefix ''Error:'' s"
      by (simp add: search_with_urls_fst [OF comprehension_eq [OF a]] b except_Exception_Inl)
  qed
  from r1 r2 r3 e1 e2 e3 show ?thesis by blast
qed

theorem adapters_catch_backend_errors_witness:
  "fst (tavily_call failing_world (tavily_kwargs ''X'' ''advanced'' 2))
      = Inl (Raised ''timed out'')
   \<and> (\<exists>s. fst (search_tavily failing_world ''X'' ''advanced'' 2) = Inr s
          \<and> prefix ''Error:'' s)
   \<and> fst (exa_call failing_world (exa_kwargs ''X'' 2 True)) = Inl (Raised ''timed out'')
   \<and> (\<exists>s. fst (search_exa failing_world ''X'' 2 True) = Inr s \<and> prefix ''Error:'' s)
   \<and> list_all2 (\<lambda>u d. extract_domain failing_world u = Inr d)
        [''https://www.nu.edu.eg/page''] [''nu.edu.eg'']
   \<and> fst (tavily_call failing_world (urls_kwargs ''X'' [''nu.edu.eg''] 2))
        = Inl (Raised ''timed out'')
   \<and> (\<exists>s. fst (search_with_urls failing_world ''X'' [''https://www.nu.edu.eg/page'']
                 ''auto'' 2) = Inr s
          \<and> prefix ''Error:'' s)"
proof -
  have h1: "fst (tavily_call failing_world (tavily_kwargs ''X'' ''advanced'' 2))
      = Inl (Raised ''timed out'')"
    by (simp add: world_defs)
  have h2: "fst (exa_call failing_world (exa_kwargs ''X'' 2 True)) = Inl (Raised ''timed out'')"
    by (simp add: world_defs)
  have h3: "list_all2 (\<lambda>u d. extract_domain failing_world u = Inr d)
        [''https://www.nu.edu.eg/page''] [''nu.edu.eg'']"
    by (simp add: nu_domain)
  have h4: "fst (tavily_call failing_world (urls_kwargs ''X'' [''nu.edu.eg''] 2))
      = Inl (Raised ''timed out'')"
    by (simp add: world_defs)
  show ?thesis
    using h1 h2 h3 h4
      adapters_catch_backend_errors [of failing_world "''X''" "''advanced''" 2 2 True
        "[''https://www.nu.edu.eg/page'']" "''auto''" "Raised ''timed out''" "[''nu.edu.eg'']"]
    by blast
qed

text \<open>
  C2. When the backend answers with no results (the key \<^verbatim>\<open>results\<close> absent, \<^verbatim>\<open>None\<close>
  or an empty list; an empty \<^verbatim>\<open>results\<close> attribute for Exa), each adapter returns a
  non-empty notice that contains \<^verbatim>\<open>No Tavily results\<close>, \<^verbatim>\<open>No Exa results\<close> or
  \<^verbatim>\<open>No data found\<close>; it neither raises nor returns a text that begins with
  \<^verbatim>\<open>Error:\<close>.
\<close>

theorem adapters_empty_notice:
  "(fst (tavily_call w (tavily_kwargs query search_depth max_results)) = Inr response
      \<and> \<not> truthy (results response)
      \<longrightarrow> (\<exists>s. fst (search_tavily w query search_depth max_results) = Inr s
               \<and> s \<noteq> [] \<and> str_contains ''No Tavily results'' s \<and> \<not> prefix ''Error:'' s))
   \<and> (fst (exa_call w (exa_kwargs query num_results use_autoprompt)) = Inr eresponse
      \<and> exa_results eresponse = []
      \<longrightarrow> (\<exists>s. fst (search_exa w query num_results use_autoprompt) = Inr s
               \<and> s \<noteq> [] \<and> str_contains ''No Exa results'' s \<and> \<not> prefix ''Error:'' s))
   \<and> (list_all2 (\<lambda>u d. extract_domain w u = Inr d) urls domains
      \<and> fst (tavily_call w (urls_kwargs query domains max_results)) = Inr response
      \<and> \<not> truthy (results response)
      \<longrightarrow> (\<exists>s. fst (search_with_urls w query urls use_tool max_results) = Inr s
               \<and> s \<noteq> [] \<and> str_contains ''No data found'' s \<and> \<not> prefix ''Error:'' s))"
proof -
  have n1: "fst (tavily_call w (tavily_kwargs query search_depth max_results)) = Inr response
      \<and> \<not> truthy (results response)
      \<longrightarrow> (\<exists>s. fst (search_tavily w query search_depth max_results) = Inr s
               \<and> s \<noteq> [] \<and> str_contains ''No Tavily results'' s \<and> \<not> prefix ''Error:'' s)"
    by (simp add: search_tavily_fst bind_def tavily_format_def except_Exception_def)
  have n2: "fst (exa_call w (exa_kwargs query num_results use_autoprompt)) = Inr eresponse
      \<and> exa_results eresponse = []
      \<longrightarrow> (\<exists>s. fst (search_exa w query num_results use_autoprompt) = Inr s
               \<and> s \<noteq> [] \<and> str_contains ''No Exa results'' s \<and> \<not> prefix ''Error:'' s)"
    by (simp add: search_exa_fst bind_def exa_format_def except_Exception_def)
  have n3: "list_all2 (\<lambda>u d. extract_domain w u = Inr d) urls domains
      \<and> fst (tavily_call w (urls_kwargs query domains max_results)) = Inr response
      \<and> \<not> truthy (results response)
      \<longrightarrow> (\<exists>s. fst (search_with_urls w query urls use_tool max_results) = Inr s
               \<and> s \<noteq> [] \<and> str_contains ''No data found'' s \<and> \<not> prefix ''Error:'' s)"
  proof (intro impI, elim conjE)
    assume a: "list_all2 (\<lambda>u d. extract_domain w u = Inr d) urls domains"
      and b: "fst (tavily_call w (urls_kwargs query domains max_results)) = Inr response"
      and c: "\<not> truthy (results response)"
    show "\<exists>s. fst (search_with_urls w query urls use_tool max_results) = Inr s
               \<and> s \<noteq> [] \<and> str_contains ''No data found'' s \<and> \<not> prefix ''Error:'' s"
      by (simp add: search_with_urls_fst [OF comprehension_eq [OF a]] b c
          bind_def urls_format_def except_Exception_def)
  qed
  from n1 n2 n3 show ?thesis by blast
qed

theorem adapters_empty_notice_witness:
  "fst (tavily_call (world_of \<lparr>answer = None, results = Some []\<rparr> [])
          (tavily_kwargs ''X'' ''advanced'' 2)) = Inr \<lparr>answer = None, results = Some []\<rparr>
   \<and> \<not> truthy (results \<lparr>answer = None, results = Some []\<rparr>)
   \<and> (\<exists>s. fst (search_tavily (world_of \<lparr>answer = None, results = Some []\<rparr> [])
                 ''X'' ''advanced'' 2) = Inr s
          \<and> s \<noteq> [] \<and> str_contains ''No Tavily results'' s \<and> \<not> prefix ''Error:'' s)
   \<and> fst (exa_call (world_of \<lparr>answer = None, results = Some []\<rparr> [])
          (exa_kwargs ''X'' 2 True)) = Inr \<lparr>exa_results = []\<rparr>
   \<and> (\<exists>s. fst (search_exa (world_of \<lparr>answer = None, results = Some []\<rparr> [])
                 ''X'' 2 True) = Inr s
          \<and> s \<noteq> [] \<and> str_contains ''No Exa results'' s \<and> \<not> prefix ''Error:'' s)
   \<and> list_all2 (\<lambda>u d. extract_domain (world_of \<lparr>answer = None, results = Some []\<rparr> []) u
                    = Inr d)
        [''https://www.nu.edu.eg/page''] [''nu.edu.eg'']
   \<and> fst (tavily_call (world_of \<lparr>answer = None, results = Some []\<rparr> [])
          (urls_kwargs ''X'' [''nu.edu.eg''] 2)) = Inr \<lparr>answer = None, results = Some []\<rparr>
   \<and> (\<exists>s. fst (search_with_urls (world_of \<lparr>answer = None, results = Some []\<rparr> [])
                 ''X'' [''https://www.nu.edu.eg/page''] ''auto'' 2) = Inr s
          \<and> s \<noteq> [] \<and> str_contains ''No data found'' s \<and> \<not> prefix ''Error:'' s)"
proof -
  let ?w = "world_of \<lparr>answer = None, results = Some []\<rparr> []"
  have h1: "fst (tavily_call ?w (tavily_kwargs ''X'' ''advanced'' 2))
      = Inr \<lparr>answer = None, results = Some []\<rparr>"
    by (simp add: world_defs)
  have h2: "\<not> truthy (results \<lparr>answer = None, results = Some []\<rparr>)"
    by simp
  have h3: "fst (exa_call ?w (exa_kwargs ''X'' 2 True)) = Inr \<lparr>exa_results = []\<rparr>"
    by (simp add: world_defs)
  have h4: "exa_results \<lparr>exa_results = []\<rparr> = []"
    by simp
  have h5: "list_all2 (\<lambda>u d. extract_domain ?w u = Inr d)
        [''https://www.nu.edu.eg/page''] [''nu.edu.eg'']"
    by (simp add: nu_domain)
  have h6: "fst (tavily_call ?w (urls_kwargs ''X'' [''nu.edu.eg''] 2))
      = Inr \<lparr>answer = None, results = Some []\<rparr>"
    by (simp add: world_defs)
  show ?thesis
    using h1 h2 h3 h4 h5 h6
      adapters_empty_notice [of ?w "''X''" "''advanced''" 2
        "\<lparr>answer = None, results = Some []\<rparr>" 2 True "\<lparr>exa_results = []\<rparr>"
        "[''https://www.nu.edu.eg/page'']" "[''nu.edu.eg'']" "''auto''"]
    by blast
qed

text \<open>
  C3. The result of \<^verbatim>\<open>search_with_urls\<close> does not depend on \<^verbatim>\<open>use_tool\<close>: two runs
  that differ only in it return the same text and make the same calls, and every call
  goes to the structured-search library (Tavily).
\<close>

theorem search_with_urls_ignores_use_tool:
  "search_with_urls w query urls use_tool max_results
     = search_with_urls w query urls use_tool' max_results
   \<and> list_all is_tavily (snd (search_with_urls w query urls use_tool max_results))"
proof -
  obtain ds where ds: "comprehension (extract_domain w) urls = Inr ds"
    using comprehension_extract_domain by blast
  have "list_all is_tavily (snd (search_with_urls w query urls use_tool max_results))"
    by (simp add: search_with_urls_snd [OF ds] tavily_call_def Let_def split: sum.split)
  then show ?thesis by (simp add: search_with_urls_def)
qed

text \<open>
  C7. \<^verbatim>\<open>search_with_urls\<close> normalizes every URL with \<^verbatim>\<open>extract_domain\<close> and, once the
  client is constructed, makes one search whose \<^verbatim>\<open>include_domains\<close> is the list of the
  normalized domains, in the order of the URLs; for
  \<^verbatim>\<open>urls=["https://www.nu.edu.eg/page"]\<close> the filter is \<^verbatim>\<open>["nu.edu.eg"]\<close>.
\<close>

theorem search_with_urls_filter:
  "(TavilyClient w (getenv w ''TAVILY_API_KEY'') = Inr client \<longrightarrow>
     (\<exists>domains. list_all2 (\<lambda>u d. extract_domain w u = Inr d) urls domains
        \<and> snd (search_with_urls w query urls use_tool max_results) =
            [NewTavilyClient (getenv w ''TAVILY_API_KEY''),
             TavilySearch \<lparr>req_query = query, req_search_depth = None,
               req_include_domains = Some domains, req_max_results = max_results,
               req_include_answer = None\<rparr>]))
   \<and> (TavilyClient w (getenv w ''TAVILY_API_KEY'') = Inr client \<longrightarrow>
       snd (search_with_urls w query [''https://www.nu.edu.eg/page''] use_tool max_results) =
            [NewTavilyClient (getenv w ''TAVILY_API_KEY''),
             TavilySearch \<lparr>req_query = query, req_search_depth = None,
               req_include_domains = Some [''nu.edu.eg''], req_max_results = max_results,
               req_include_answer = None\<rparr>])"
proof -
  obtain ds where ds: "comprehension (extract_domain w) urls = Inr ds"
    and l: "list_all2 (\<lambda>u d. extract_domain w u = Inr d) urls ds"
    using comprehension_extract_domain by blast
  have g: "TavilyClient w (getenv w ''TAVILY_API_KEY'') = Inr client \<longrightarrow>
     (\<exists>domains. list_all2 (\<lambda>u d. extract_domain w u = Inr d) urls domains
        \<and> snd (search_with_urls w query urls use_tool max_results) =
            [NewTavilyClient (getenv w ''TAVILY_API_KEY''),
             TavilySearch \<lparr>req_query = query, req_search_depth = None,
               req_include_domains = Some domains, req_max_results = max_results,
               req_include_answer = None\<rparr>])"
    using l by (auto simp: search_with_urls_snd [OF ds] tavily_call_def urls_kwargs_def Let_def)
  have c: "comprehension (extract_domain w) [''https://www.nu.edu.eg/page'']
      = Inr [''nu.edu.eg'']"
    by (simp add: nu_domain bind_def)
  have x: "TavilyClient w (getenv w ''TAVILY_API_KEY'') = Inr client \<longrightarrow>
       snd (search_with_urls w query [''https://www.nu.edu.eg/page''] use_tool max_results) =
            [NewTavilyClient (getenv w ''TAVILY_API_KEY''),
             TavilySearch \<lparr>req_query = query, req_search_depth = None,
               req_include_domains = Some [''nu.edu.eg''], req_max_results = max_results,
               req_include_answer = None\<rparr>]"
    by (simp add: search_with_urls_snd [OF c] tavily_call_def urls_kwargs_def Let_def)
  from g x show ?thesis by blast
qed

theorem search_with_urls_filter_witness:
  "TavilyClient (world_of \<lparr>answer = None, results = None\<rparr> [])
       (getenv (world_of \<lparr>answer = None, results = None\<rparr> []) ''TAVILY_API_KEY'')
     = Inr (\<lambda>_. Inr \<lparr>answer = None, results = None\<rparr>)
   \<and> (\<exists>domains. list_all2 (\<lambda>u d. extract_domain (world_of \<lparr>answer = None, results = None\<rparr> []) u
                       = Inr d) [''https://www.nu.edu.eg/page'', ''example.com''] domains
        \<and> snd (search_with_urls (world_of \<lparr>answer = None, results = None\<rparr> []) ''Q''
                 [''https://www.nu.edu.eg/page'', ''example.com''] ''auto'' 5) =
            [NewTavilyClient (Some ''key''),
             TavilySearch \<lparr>req_query = ''Q'', req_search_depth = None,
               req_include_domains = Some domains, req_max_results = 5,
               req_include_answer = None\<rparr>])
   \<and> snd (search_with_urls (world_of \<lparr>answer = None, results = None\<rparr> []) ''Q''
            [''https://www.nu.edu.eg/page''] ''auto'' 5) =
            [NewTavilyClient (Some ''key''),
             TavilySearch \<lparr>req_query = ''Q'', req_search_depth = None,
               req_include_domains = Some [''nu.edu.eg''], req_max_results = 5,
               req_include_answer = None\<rparr>]"
proof -
  let ?w = "world_of \<lparr>answer = None, results = None\<rparr> []"
  have h: "TavilyClient ?w (getenv ?w ''TAVILY_API_KEY'')
     = Inr (\<lambda>_. Inr \<lparr>answer = None, results = None\<rparr>)"
    by (simp add: world_of_def)
  have k: "getenv ?w ''TAVILY_API_KEY'' = Some ''key''"
    by (simp add: world_of_def)
  show ?thesis
    using h search_with_urls_filter [of ?w "\<lambda>_. Inr \<lparr>answer = None, results = None\<rparr>"
        "[''https://www.nu.edu.eg/page'', ''example.com'']" "''Q''" "''auto''" 5]
    unfolding k by blast
qed

subsection \<open>The listings\<close>

lemma str_nat_1: "str_nat (Suc 0) = ''1''"
  by (subst str_nat.simps) simp

lemma str_nat_2: "str_nat (Suc (Suc 0)) = ''2''"
  by (subst str_nat.simps) simp


lemma tavily_loop_entries:
  "list_all has_fields rs \<Longrightarrow>
   tavily_loop formatted i rs =
     Inr (formatted @ concat (map (\<lambda>(k, r). tavily_entry k (field r ''title'') (field r ''url'')
            (take 200 (field r ''content''))) (enumerate i rs)))"
proof (induction rs arbitrary: formatted i)
  case Nil
  show ?case by simp
next
  case (Cons r rs)
  from Cons.prems have hr: "has_fields r" and hrs: "list_all has_fields rs" by simp_all
  from hr obtain t u c where f: "map_of r ''title'' = Some t" "map_of r ''url'' = Some u"
      "map_of r ''content'' = Some c"
    by (auto simp: has_fields_def)
  show ?case
    by (simp add: f getitem_def bind_def field_def Cons.IH [OF hrs])
qed

lemma urls_loop_entries:
  "list_all has_fields rs \<Longrightarrow>
   urls_loop formatted rs =
     Inr (formatted @ concat (map (\<lambda>r. urls_entry (field r ''title'') (field r ''url'')
            (take 200 (field r ''content''))) rs))"
proof (induction rs arbitrary: formatted)
  case Nil
  show ?case by simp
next
  case (Cons r rs)
  from Cons.prems have hr: "has_fields r" and hrs: "list_all has_fields rs" by simp_all
  from hr obtain t u c where f: "map_of r ''title'' = Some t" "map_of r ''url'' = Some u"
      "map_of r ''content'' = Some c"
    by (auto simp: has_fields_def)
  show ?case
    by (simp add: f getitem_def bind_def field_def Cons.IH [OF hrs])
qed

lemma exa_loop_entries:
  "exa_loop formatted i rs =
     Inr (formatted @ concat (map (\<lambda>(k, r). exa_entry k (res_title r) (res_url r)
            (take 200 (res_text r))) (enumerate i rs)))"
  by (induction rs arbitrary: formatted i) simp_all

lemma enumerate_zip_map:
  "map (\<lambda>(k, r, s). f k r s) (enumerate i (zip rs (map g rs)))
     = map (\<lambda>(k, r). f k r (g r)) (enumerate i rs)"
  by (induction rs arbitrary: i) simp_all

lemma zip_map_self: "map (\<lambda>(r, s). f r s) (zip rs (map g rs)) = map (\<lambda>r. f r (g r)) rs"
  by (induction rs) simp_all

lemma search_tavily_results:
  assumes "fst (tavily_call w (tavily_kwargs query search_depth max_results)) = Inr response"
    and "results response = Some rs" and "rs \<noteq> []" and "list_all has_fields rs"
  shows "fst (search_tavily w query search_depth max_results) =
     Inr (tavily_header response @ concat (map (\<lambda>(k, r). tavily_entry k (field r ''title'')
            (field r ''url'') (take 200 (field r ''content''))) (enumerate 1 rs)))"
  using assms
  by (simp add: search_tavily_fst bind_def tavily_format_def tavily_loop_entries
      except_Exception_def)

lemma search_exa_results:
  assumes "fst (exa_call w (exa_kwargs query num_results use_autoprompt)) = Inr response"
    and "exa_results response = rs" and "rs \<noteq> []"
  shows "fst (search_exa w query num_results use_autoprompt) =
     Inr (''**Exa Neural Data:**'' @ [CHR 0x0A] @ concat (map (\<lambda>(k, r). exa_entry k (res_title r)
            (res_url r) (take 200 (res_text r))) (enumerate 1 rs)))"
  using assms
  by (simp add: search_exa_fst bind_def exa_format_def exa_loop_entries except_Exception_def)

lemma search_with_urls_results:
  assumes "list_all2 (\<lambda>u d. extract_domain w u = Inr d) urls domains"
    and "fst (tavily_call w (urls_kwargs query domains max_results)) = Inr response"
    and "results response = Some rs" and "rs \<noteq> []" and "list_all has_fields rs"
  shows "fst (search_with_urls w query urls use_tool max_results) =
     Inr (''**Targeted Domain Results:**'' @ [CHR 0x0A] @ concat (map (\<lambda>r. urls_entry
            (field r ''title'') (field r ''url'') (take 200 (field r ''content''))) rs))"
  using assms(2-)
  by (simp add: search_with_urls_fst [OF comprehension_eq [OF assms(1)]] bind_def
      urls_format_def urls_loop_entries except_Exception_def)

lemma has_fields_result3: "has_fields (result3 t u c)"
  by (simp add: has_fields_def result3_def)






text \<open>
  C8. In the three adapters, the snippet printed for a result is a prefix of the
  content of the result (\<^verbatim>\<open>content\<close>, or \<^verbatim>\<open>text\<close> for Exa) of at most 200 characters:
  the output is the heading followed by one entry per result, and the entry is the fixed
  text of the f-string around the title, the URL and that snippet. The results of Tavily
  are taken to have the three fields; a missing field gives an \<^verbatim>\<open>Error:\<close> text with no
  snippet at all.
\<close>

theorem snippets_bounded:
  "(fst (tavily_call w (tavily_kwargs query search_depth max_results)) = Inr response
      \<and> results response = Some rs \<and> rs \<noteq> [] \<and> list_all has_fields rs
    \<longrightarrow> (\<exists>snippets. length snippets = length rs
           \<and> list_all (\<lambda>s. length s \<le> 200) snippets
           \<and> list_all2 (\<lambda>r s. prefix s (field r ''content'')) rs snippets
           \<and> fst (search_tavily w query search_depth max_results)
               = Inr (tavily_header response @ concat (map (\<lambda>(i, r, s).
                   tavily_entry i (field r ''title'') (field r ''url'') s)
                   (enumerate 1 (zip rs snippets))))))
   \<and> (fst (exa_call w (exa_kwargs query num_results use_autoprompt)) = Inr eresponse
      \<and> exa_results eresponse = ers \<and> ers \<noteq> []
    \<longrightarrow> (\<exists>snippets. length snippets = length ers
           \<and> list_all (\<lambda>s. length s \<le> 200) snippets
           \<and> list_all2 (\<lambda>r s. prefix s (res_text r)) ers snippets
           \<and> fst (search_exa w query num_results use_autoprompt)
               = Inr (''**Exa Neural Data:**'' @ [CHR 0x0A] @ concat (map (\<lambda>(i, r, s).
                   exa_entry i (res_title r) (res_url r) s)
                   (enumerate 1 (zip ers snippets))))))
   \<and> (list_all2 (\<lambda>u d. extract_domain w u = Inr d) urls domains
      \<and> fst (tavily_call w (urls_kwargs query domains max_results)) = Inr response
      \<and> results response = Some rs \<and> rs \<noteq> [] \<and> list_all has_fields rs
    \<longrightarrow> (\<exists>snippets. length snippets = length rs
           \<and> list_all (\<lambda>s. length s \<le> 200) snippets
           \<and> list_all2 (\<lambda>r s. prefix s (field r ''content'')) rs snippets
           \<and> fst (search_with_urls w query urls use_tool max_results)
               = Inr (''**Targeted Domain Results:**'' @ [CHR 0x0A] @ concat (map (\<lambda>(r, s).
                   urls_entry (field r ''title'') (field r ''url'') s)
                   (zip rs snippets)))))"
proof -
  have bounded: "list_all (\<lambda>s. length s \<le> 200) (map (\<lambda>r. take 200 (g r)) xs)"
    for g :: "'a \<Rightarrow> string" and xs
    by (simp add: list_all_iff)
  have pre: "list_all2 (\<lambda>r s. prefix s (g r)) xs (map (\<lambda>r. take 200 (g r)) xs)"
    for g :: "'a \<Rightarrow> string" and xs
    by (simp add: list_all2_map2 list_all2_same take_is_prefix)
  have t: "fst (tavily_call w (tavily_kwargs query search_depth max_results)) = Inr response
      \<and> results response = Some rs \<and> rs \<noteq> [] \<and> list_all has_fields rs
    \<longrightarrow> (\<exists>snippets. length snippets = length rs
           \<and> list_all (\<lambda>s. length s \<le> 200) snippets
           \<and> list_all2 (\<lambda>r s. prefix s (field r ''content'')) rs snippets
           \<and> fst (search_tavily w query search_depth max_results)
               = Inr (tavily_header response @ concat (map (\<lambda>(i, r, s).
                   tavily_entry i (field r ''title'') (field r ''url'') s)
                   (enumerate 1 (zip rs snippets)))))"
  proof (intro impI, elim conjE)
    assume a: "fst (tavily_call w (tavily_kwargs query search_depth max_results)) = Inr response"
      and b: "results response = Some rs" and c: "rs \<noteq> []" and d: "list_all has_fields rs"
    let ?sn = "map (\<lambda>r. take 200 (field r ''content'')) rs"
    have "fst (search_tavily w query search_depth max_results)
               = Inr (tavily_header response @ concat (map (\<lambda>(i, r, s).
                   tavily_entry i (field r ''title'') (field r ''url'') s)
                   (enumerate 1 (zip rs ?sn))))"
      by (simp only: search_tavily_results [OF a b c d] enumerate_zip_map)
    then show "\<exists>snippets. length snippets = length rs
           \<and> list_all (\<lambda>s. length s \<le> 200) snippets
           \<and> list_all2 (\<lambda>r s. prefix s (field r ''content'')) rs snippets
           \<and> fst (search_tavily w query search_depth max_results)
               = Inr (tavily_header response @ concat (map (\<lambda>(i, r, s).
                   tavily_entry i (field r ''title'') (field r ''url'') s)
                   (enumerate 1 (zip rs snippets))))"
      using bounded [of "\<lambda>r. field r ''content''" rs] pre [of "\<lambda>r. field r ''content''" rs]
      by (intro exI [of _ ?sn]) simp
  qed
  have e: "fst (exa_call w (exa_kwargs query num_results use_autoprompt)) = Inr eresponse
      \<and> exa_results eresponse = ers \<and> ers \<noteq> []
    \<longrightarrow> (\<exists>snippets. length snippets = length ers
           \<and> list_all (\<lambda>s. length s \<le> 200) snippets
           \<and> list_all2 (\<lambda>r s. prefix s (res_text r)) ers snippets
           \<and> fst (search_exa w query num_results use_autoprompt)
               = Inr (''**Exa Neural Data:**'' @ [CHR 0x0A] @ concat (map (\<lambda>(i, r, s).
                   exa_entry i (res_title r) (res_url r) s)
                   (enumerate 1 (zip ers snippets)))))"
  proof (intro impI, elim conjE)
    assume a: "fst (exa_call w (exa_kwargs query num_results use_autoprompt)) = Inr eresponse"
      and b: "exa_results eresponse = ers" and c: "ers \<noteq> []"
    let ?sn = "map (\<lambda>r. take 200 (res_text r)) ers"
    have "fst (search_exa w query num_results use_autoprompt)
               = Inr (''**Exa Neural Data:**'' @ [CHR 0x0A] @ concat (map (\<lambda>(i, r, s).
                   exa_entry i (res_title r) (res_url r) s)
                   (enumerate 1 (zip ers ?sn))))"
      by (simp only: search_exa_results [OF a b c] enumerate_zip_map)
    then show "\<exists>snippets. length snippets = length ers
           \<and> list_all (\<lambda>s. length s \<le> 200) snippets
           \<and> list_all2 (\<lambda>r s. prefix s (res_text r)) ers snippets
           \<and> fst (search_exa w query num_results use_autoprompt)
               = Inr (''**Exa Neural Data:**'' @ [CHR 0x0A] @ concat (map (\<lambda>(i, r, s).
                   exa_entry i (res_title r) (res_url r) s)
                   (enumerate 1 (zip ers snippets))))"
      using bounded [of res_text ers] pre [of res_text ers]
      by (intro exI [of _ ?sn]) simp
  qed
  have u: "list_all2 (\<lambda>u d. extract_domain w u = Inr d) urls domains
      \<and> fst (tavily_call w (urls_kwargs query domains max_results)) = Inr response
      \<and> results response = Some rs \<and> rs \<noteq> [] \<and> list_all has_fields rs
    \<longrightarrow> (\<exists>snippets. length snippets = length rs
           \<and> list_all (\<lambda>s. length s \<le> 200) snippets
           \<and> list_all2 (\<lambda>r s. prefix s (field r ''content'')) rs snippets
           \<and> fst (search_with_urls w query urls use_tool max_results)
               = Inr (''**Targeted Domain Results:**'' @ [CHR 0x0A] @ concat (map (\<lambda>(r, s).
                   urls_entry (field r ''title'') (field r ''url'') s)
                   (zip rs snippets))))"
  proof (intro impI, elim conjE)
    assume l: "list_all2 (\<lambda>u d. extract_domain w u = Inr d) urls domains"
      and a: "fst (tavily_call w (urls_kwargs query domains max_results)) = Inr response"
      and b: "results response = Some rs" and c: "rs \<noteq> []" and d: "list_all has_fields rs"
    let ?sn = "map (\<lambda>r. take 200 (field r ''content'')) rs"
    have "fst (search_with_urls w query urls use_tool max_results)
               = Inr (''**Targeted Domain Results:**'' @ [CHR 0x0A] @ concat (map (\<lambda>(r, s).
                   urls_entry (field r ''title'') (field r ''url'') s)
                   (zip rs ?sn)))"
      by (simp only: search_with_urls_results [OF l a b c d] zip_map_self)
    then show "\<exists>snippets. length snippets = length rs
           \<and> list_all (\<lambda>s. length s \<le> 200) snippets
           \<and> list_all2 (\<lambda>r s. prefix s (field r ''content'')) rs snippets
           \<and> fst (search_with_urls w query urls use_tool max_results)
               = Inr (''**Targeted Domain Results:**'' @ [CHR 0x0A] @ concat (map (\<lambda>(r, s).
                   urls_entry (field r ''title'') (field r ''url'') s)
                   (zip rs snippets)))"
      using bounded [of "\<lambda>r. field r ''content''" rs] pre [of "\<lambda>r. field r ''content''" rs]
      by (intro exI [of _ ?sn]) simp
  qed
  from t e u show ?thesis by blast
qed

theorem snippets_bounded_witness:
  "fst (tavily_call long_world (tavily_kwargs ''X'' ''advanced'' 2))
      = Inr \<lparr>answer = None, results = Some long_results\<rparr>
   \<and> long_results \<noteq> [] \<and> list_all has_fields long_results
   \<and> fst (exa_call long_world (exa_kwargs ''X'' 2 True)) = Inr \<lparr>exa_results = long_exa_results\<rparr>
   \<and> long_exa_results \<noteq> []
   \<and> list_all2 (\<lambda>u d. extract_domain long_world u = Inr d)
        [''https://www.nu.edu.eg/page''] [''nu.edu.eg'']
   \<and> fst (tavily_call long_world (urls_kwargs ''X'' [''nu.edu.eg''] 2))
      = Inr \<lparr>answer = None, results = Some long_results\<rparr>
   \<and> (\<exists>snippets. length snippets = length long_results
           \<and> list_all (\<lambda>s. length s \<le> 200) snippets
           \<and> fst (search_tavily long_world ''X'' ''advanced'' 2)
               = Inr (tavily_header \<lparr>answer = None, results = Some long_results\<rparr>
                   @ concat (map (\<lambda>(i, r, s).
                   tavily_entry i (field r ''title'') (field r ''url'') s)
                   (enumerate 1 (zip long_results snippets)))))
   \<and> (\<exists>snippets. length snippets = length long_exa_results
           \<and> list_all (\<lambda>s. length s \<le> 200) snippets
           \<and> fst (search_exa long_world ''X'' 2 True)
               = Inr (''**Exa Neural Data:**'' @ [CHR 0x0A] @ concat (map (\<lambda>(i, r, s).
                   exa_entry i (res_title r) (res_url r) s)
                   (enumerate 1 (zip long_exa_results snippets)))))
   \<and> (\<exists>snippets. length snippets = length long_results
           \<and> list_all (\<lambda>s. length s \<le> 200) snippets
           \<and> fst (search_with_urls long_world ''X'' [''https://www.nu.edu.eg/page''] ''auto'' 2)
               = Inr (''**Targeted Domain Results:**'' @ [CHR 0x0A] @ concat (map (\<lambda>(r, s).
                   urls_entry (field r ''title'') (field r ''url'') s)
                   (zip long_results snippets))))"
proof -
  let ?r = "\<lparr>answer = None, results = Some long_results\<rparr>"
  have h1: "fst (tavily_call long_world (tavily_kwargs ''X'' ''advanced'' 2)) = Inr ?r"
    by (simp add: long_world_def world_defs)
  have h2: "results ?r = Some long_results" by simp
  have h3: "long_results \<noteq> []" by (simp add: long_results_def)
  have h4: "list_all has_fields long_results"
    by (simp add: long_results_def has_fields_result3)
  have h5: "fst (exa_call long_world (exa_kwargs ''X'' 2 True))
      = Inr \<lparr>exa_results = long_exa_results\<rparr>"
    by (simp add: long_world_def world_defs)
  have h6: "exa_results \<lparr>exa_results = long_exa_results\<rparr> = long_exa_results" by simp
  have h7: "long_exa_results \<noteq> []" by (simp add: long_exa_results_def)
  have h8: "list_all2 (\<lambda>u d. extract_domain long_world u = Inr d)
        [''https://www.nu.edu.eg/page''] [''nu.edu.eg'']"
    by (simp add: nu_domain)
  have h9: "fst (tavily_call long_world (urls_kwargs ''X'' [''nu.edu.eg''] 2)) = Inr ?r"
    by (simp add: long_world_def world_defs)
  note t = snippets_bounded [of long_world "''X''" "''advanced''" 2 ?r long_results 2 True
        "\<lparr>exa_results = long_exa_results\<rparr>" long_exa_results
        "[''https://www.nu.edu.eg/page'']" "[''nu.edu.eg'']" "''auto''"]
  have c1: "\<exists>snippets. length snippets = length long_results
           \<and> list_all (\<lambda>s. length s \<le> 200) snippets
           \<and> fst (search_tavily long_world ''X'' ''advanced'' 2)
               = Inr (tavily_header ?r @ concat (map (\<lambda>(i, r, s).
                   tavily_entry i (field r ''title'') (field r ''url'') s)
                   (enumerate 1 (zip long_results snippets))))"
    using t h1 h2 h3 h4 by blast
  have c2: "\<exists>snippets. length snippets = length long_exa_results
           \<and> list_all (\<lambda>s. length s \<le> 200) snippets
           \<and> fst (search_exa long_world ''X'' 2 True)
               = Inr (''**Exa Neural Data:**'' @ [CHR 0x0A] @ concat (map (\<lambda>(i, r, s).
                   exa_entry i (res_title r) (res_url r) s)
                   (enumerate 1 (zip long_exa_results snippets))))"
    using t h5 h6 h7 by blast
  have c3: "\<exists>snippets. length snippets = length long_results
           \<and> list_all (\<lambda>s. length s \<le> 200) snippets
           \<and> fst (search_with_urls long_world ''X'' [''https://www.nu.edu.eg/page''] ''auto'' 2)
               = Inr (''**Targeted Domain Results:**'' @ [CHR 0x0A] @ concat (map (\<lambda>(r, s).
                   urls_entry (field r ''title'') (field r ''url'') s)
                   (zip long_results snippets)))"
    using t h8 h9 h2 h3 h4 by blast
  from h1 h3 h4 h5 h7 h8 h9 c1 c2 c3 show ?thesis by blast
qed

text \<open>
  C9. \<^verbatim>\<open>search_tavily("X", "advanced", 2)\<close> on a response with a non-empty answer and
  exactly two results returns the heading, then the line \<^verbatim>\<open>Quick Summary: \<close> with the
  answer, then the entries numbered 1 and 2; with no answer (absent, \<^verbatim>\<open>None\<close> or
  empty) the same text without the \<^verbatim>\<open>Quick Summary:\<close> line.
\<close>

theorem search_tavily_scenario:
  "(fst (tavily_call w (tavily_kwargs ''X'' ''advanced'' 2)) = Inr response
      \<and> answer response = Some a \<and> a \<noteq> []
      \<and> results response = Some [r1, r2] \<and> has_fields r1 \<and> has_fields r2
    \<longrightarrow> fst (search_tavily w ''X'' ''advanced'' 2)
         = Inr (''**Tavily Data:**'' @ [CHR 0x0A]
              @ ''Quick Summary: '' @ a @ [CHR 0x0A]
              @ ''1. '' @ field r1 ''title'' @ '' - '' @ field r1 ''url'' @ [CHR 0x0A]
              @ ''Snippet: '' @ take 200 (field r1 ''content'') @ [CHR 0x0A]
              @ ''2. '' @ field r2 ''title'' @ '' - '' @ field r2 ''url'' @ [CHR 0x0A]
              @ ''Snippet: '' @ take 200 (field r2 ''content'') @ [CHR 0x0A]))
   \<and> (fst (tavily_call w (tavily_kwargs ''X'' ''advanced'' 2)) = Inr response
      \<and> \<not> truthy (answer response)
      \<and> results response = Some [r1, r2] \<and> has_fields r1 \<and> has_fields r2
    \<longrightarrow> fst (search_tavily w ''X'' ''advanced'' 2)
         = Inr (''**Tavily Data:**'' @ [CHR 0x0A]
              @ ''1. '' @ field r1 ''title'' @ '' - '' @ field r1 ''url'' @ [CHR 0x0A]
              @ ''Snippet: '' @ take 200 (field r1 ''content'') @ [CHR 0x0A]
              @ ''2. '' @ field r2 ''title'' @ '' - '' @ field r2 ''url'' @ [CHR 0x0A]
              @ ''Snippet: '' @ take 200 (field r2 ''content'') @ [CHR 0x0A]))"
proof -
  have with_answer: "fst (search_tavily w ''X'' ''advanced'' 2)
         = Inr (''**Tavily Data:**'' @ [CHR 0x0A]
              @ ''Quick Summary: '' @ a @ [CHR 0x0A]
              @ ''1. '' @ field r1 ''title'' @ '' - '' @ field r1 ''url'' @ [CHR 0x0A]
              @ ''Snippet: '' @ take 200 (field r1 ''content'') @ [CHR 0x0A]
              @ ''2. '' @ field r2 ''title'' @ '' - '' @ field r2 ''url'' @ [CHR 0x0A]
              @ ''Snippet: '' @ take 200 (field r2 ''content'') @ [CHR 0x0A])"
    if a: "fst (tavily_call w (tavily_kwargs ''X'' ''advanced'' 2)) = Inr response"
      and b: "answer response = Some a" "a \<noteq> []"
      and c: "results response = Some [r1, r2]" and d: "has_fields r1" "has_fields r2"
  proof -
    have l: "list_all has_fields [r1, r2]" using d by simp
    have n: "[r1, r2] \<noteq> []" by simp
    show ?thesis
      by (simp add: search_tavily_results [OF a c n l] tavily_header_def b tavily_entry_def
          str_nat_1 str_nat_2)
  qed
  have without_answer: "fst (search_tavily w ''X'' ''advanced'' 2)
         = Inr (''**Tavily Data:**'' @ [CHR 0x0A]
              @ ''1. '' @ field r1 ''title'' @ '' - '' @ field r1 ''url'' @ [CHR 0x0A]
              @ ''Snippet: '' @ take 200 (field r1 ''content'') @ [CHR 0x0A]
              @ ''2. '' @ field r2 ''title'' @ '' - '' @ field r2 ''url'' @ [CHR 0x0A]
              @ ''Snippet: '' @ take 200 (field r2 ''content'') @ [CHR 0x0A])"
    if a: "fst (tavily_call w (tavily_kwargs ''X'' ''advanced'' 2)) = Inr response"
      and b: "\<not> truthy (answer response)"
      and c: "results response = Some [r1, r2]" and d: "has_fields r1" "has_fields r2"
  proof -
    have l: "list_all has_fields [r1, r2]" using d by simp
    have n: "[r1, r2] \<noteq> []" by simp
    show ?thesis
      by (simp add: search_tavily_results [OF a c n l] tavily_header_def b tavily_entry_def
          str_nat_1 str_nat_2)
  qed
  from with_answer without_answer show ?thesis by blast
qed

theorem search_tavily_scenario_witness:
  "fst (tavily_call (world_of \<lparr>answer = Some ''A'', results = Some two_results\<rparr> [])
          (tavily_kwargs ''X'' ''advanced'' 2))
      = Inr \<lparr>answer = Some ''A'', results = Some two_results\<rparr>
   \<and> two_results = [result3 ''T1'' ''U1'' ''C1'', result3 ''T2'' ''U2'' ''C2'']
   \<and> has_fields (result3 ''T1'' ''U1'' ''C1'') \<and> has_fields (result3 ''T2'' ''U2'' ''C2'')
   \<and> fst (search_tavily (world_of \<lparr>answer = Some ''A'', results = Some two_results\<rparr> [])
          ''X'' ''advanced'' 2)
      = Inr (''**Tavily Data:**'' @ [CHR 0x0A] @ ''Quick Summary: A'' @ [CHR 0x0A]
           @ ''1. T1 - U1'' @ [CHR 0x0A] @ ''Snippet: C1'' @ [CHR 0x0A]
           @ ''2. T2 - U2'' @ [CHR 0x0A] @ ''Snippet: C2'' @ [CHR 0x0A])
   \<and> length (filter (prefix ''Quick Summary:'') (splitlines (projr (fst (search_tavily
          (world_of \<lparr>answer = Some ''A'', results = Some two_results\<rparr> [])
          ''X'' ''advanced'' 2))))) = 1
   \<and> count_entries (projr (fst (search_tavily
          (world_of \<lparr>answer = Some ''A'', results = Some two_results\<rparr> [])
          ''X'' ''advanced'' 2))) = 2
   \<and> fst (tavily_call (world_of \<lparr>answer = None, results = Some two_results\<rparr> [])
          (tavily_kwargs ''X'' ''advanced'' 2))
      = Inr \<lparr>answer = None, results = Some two_results\<rparr>
   \<and> \<not> truthy (answer \<lparr>answer = None, results = Some two_results\<rparr>)
   \<and> fst (search_tavily (world_of \<lparr>answer = None, results = Some two_results\<rparr> [])
          ''X'' ''advanced'' 2)
      = Inr (''**Tavily Data:**'' @ [CHR 0x0A]
           @ ''1. T1 - U1'' @ [CHR 0x0A] @ ''Snippet: C1'' @ [CHR 0x0A]
           @ ''2. T2 - U2'' @ [CHR 0x0A] @ ''Snippet: C2'' @ [CHR 0x0A])"
proof -
  let ?r1 = "result3 ''T1'' ''U1'' ''C1''" and ?r2 = "result3 ''T2'' ''U2'' ''C2''"
  let ?A = "\<lparr>answer = Some ''A'', results = Some two_results\<rparr>"
  let ?N = "\<lparr>answer = None, results = Some two_results\<rparr>"
  have h1: "fst (tavily_call (world_of ?A []) (tavily_kwargs ''X'' ''advanced'' 2)) = Inr ?A"
    by (simp add: world_defs)
  have h2: "fst (tavily_call (world_of ?N []) (tavily_kwargs ''X'' ''advanced'' 2)) = Inr ?N"
    by (simp add: world_defs)
  have t: "two_results = [?r1, ?r2]" by (simp add: two_results_def)
  have f: "has_fields ?r1" "has_fields ?r2" by (simp_all add: has_fields_result3)
  have v: "field ?r1 ''title'' = ''T1''" "field ?r1 ''url'' = ''U1''"
    "field ?r1 ''content'' = ''C1''" "field ?r2 ''title'' = ''T2''"
    "field ?r2 ''url'' = ''U2''" "field ?r2 ''content'' = ''C2''"
    by (simp_all add: field_def result3_def)
  have a: "answer ?A = Some ''A''" "''A'' \<noteq> []" "results ?A = Some [?r1, ?r2]"
    by (simp_all add: t)
  have n: "\<not> truthy (answer ?N)" "results ?N = Some [?r1, ?r2]"
    by (simp_all add: t)
  have o1: "fst (search_tavily (world_of ?A []) ''X'' ''advanced'' 2)
      = Inr (''**Tavily Data:**'' @ [CHR 0x0A] @ ''Quick Summary: A'' @ [CHR 0x0A]
           @ ''1. T1 - U1'' @ [CHR 0x0A] @ ''Snippet: C1'' @ [CHR 0x0A]
           @ ''2. T2 - U2'' @ [CHR 0x0A] @ ''Snippet: C2'' @ [CHR 0x0A])"
    using search_tavily_scenario [of "world_of ?A []" ?A "''A''" ?r1 ?r2] h1 a f
    by (simp add: v)
  have o2: "fst (search_tavily (world_of ?N []) ''X'' ''advanced'' 2)
      = Inr (''**Tavily Data:**'' @ [CHR 0x0A]
           @ ''1. T1 - U1'' @ [CHR 0x0A] @ ''Snippet: C1'' @ [CHR 0x0A]
           @ ''2. T2 - U2'' @ [CHR 0x0A] @ ''Snippet: C2'' @ [CHR 0x0A])"
    using search_tavily_scenario [of "world_of ?N []" ?N "''A''" ?r1 ?r2] h2 n f
    by (simp add: v)
  have l1: "length (filter (prefix ''Quick Summary:'') (splitlines (projr (fst (search_tavily
          (world_of ?A []) ''X'' ''advanced'' 2))))) = 1"
    by (simp add: o1)
  have l2: "count_entries (projr (fst (search_tavily (world_of ?A []) ''X'' ''advanced'' 2))) = 2"
    by (simp add: o1 count_entries_def)
  from h1 h2 t f o1 o2 l1 l2 n(1) show ?thesis by blast
qed

end
